theory Spec2Isabelle
  imports Complex_Main "HOL-Library.Sublist" "HOL-Library.Multiset"
begin

section \<open>Data model\<close>

text \<open>
  The analysis result of \<^verbatim>\<open>src/lib/analyzer.ts\<close> and the stored record of the
  record store. Strings are character lists; numbers that hold epoch milliseconds are
  integers; the confidence score is a real number. A field that TypeScript marks
  optional is an \<open>option\<close>. The record field \<^verbatim>\<open>id\<close> is written \<open>id'\<close> and
  \<^verbatim>\<open>context\<close> is written \<open>context'\<close>, since the plain names are taken.
\<close>

datatype severity = critical | high | medium | low

record AnalysisMetadata =
  model :: string
  meta_timestamp :: int
  processingTimeMs :: int

record AnalysisResult =
  severity :: severity
  rootCause :: string
  recommendations :: "string list"
  relatedErrors :: "string list"
  category :: string
  confidenceScore :: "real option"
  analysisMetadata :: "AnalysisMetadata option"

text \<open>
  \<^verbatim>\<open>Omit<ErrorRecord, 'id' | 'timestamp'>\<close> is the parent record; the stored record
  extends it with the two fields that \<^verbatim>\<open>saveError\<close> assigns.
\<close>

record ErrorInput =
  errorMessage :: string
  errorType :: string
  stackTrace :: string
  context' :: string
  analysis :: "AnalysisResult option"

record ErrorRecord = ErrorInput +
  id' :: string
  timestamp :: int

text \<open>Exceptions of the run time that the code catches or lets through.\<close>

datatype exn = ENOENT | SyntaxError | TypeError | TimeoutError | Error string

section \<open>Strings\<close>

text \<open>
  \<^verbatim>\<open>String.prototype.toLowerCase\<close> on ASCII text: the letters A to Z move to a to z,
  every other character stays.
\<close>

definition toLowerCase_char :: "char \<Rightarrow> char" where
  "toLowerCase_char c =
     (let n = (of_char c :: nat) in if 65 \<le> n \<and> n \<le> 90 then char_of (n + 32) else c)"

definition toLowerCase :: "string \<Rightarrow> string" where
  "toLowerCase s = map toLowerCase_char s"

text \<open>\<^verbatim>\<open>text.includes(kw)\<close>: \<open>kw\<close> occurs in \<open>text\<close> as a contiguous substring.\<close>

fun includes' :: "string \<Rightarrow> string \<Rightarrow> bool" where
  "includes' [] kw = (kw = [])"
| "includes' (c # cs) kw = (prefix kw (c # cs) \<or> includes' cs kw)"

section \<open>Fallback classifier\<close>

record pattern =
  keywords' :: "string list"
  pat_severity :: severity
  pat_category :: string
  pat_recommendations :: "string list"

definition database :: pattern where
  "database = \<lparr>
     keywords' = [''connection'', ''timeout'', ''pool'', ''database'', ''query'',
                 ''transaction'', ''constraint''],
     pat_severity = high,
     pat_category = ''Database'',
     pat_recommendations = [
       ''Check database connection string and credentials'',
       ''Verify database server is running and accessible'',
       ''Review query performance and optimize if needed'',
       ''Check for connection pool exhaustion''] \<rparr>"

definition network :: pattern where
  "network = \<lparr>
     keywords' = [''fetch'', ''http'', ''socket'', ''econnrefused'', ''timeout'',
                 ''enotfound'', ''cors''],
     pat_severity = high,
     pat_category = ''Network'',
     pat_recommendations = [
       ''Verify network connectivity and DNS resolution'',
       ''Check endpoint URL and port are correct'',
       ''Review CORS policies if applicable'',
       ''Increase timeout duration if requests take longer''] \<rparr>"

definition runtime :: pattern where
  "runtime = \<lparr>
     keywords' = [''undefined'', ''null'', ''typeerror'', ''cannot read'',
                 ''not a function'', ''reference''],
     pat_severity = high,
     pat_category = ''Runtime'',
     pat_recommendations = [
       ''Add null/undefined checks before property access'',
       ''Use optional chaining (?.) and nullish coalescing (??)'',
       ''Enable strict mode and TypeScript strict checks'',
       ''Add type guards and runtime validation''] \<rparr>"

text \<open>\<^verbatim>\<open>Object.values(ERROR_PATTERNS)\<close>: the patterns in the order of their declaration.\<close>

definition ERROR_PATTERNS :: "pattern list" where
  "ERROR_PATTERNS = [database, network, runtime]"

definition fullText :: "string \<Rightarrow> string \<Rightarrow> string \<Rightarrow> string \<Rightarrow> string" where
  "fullText eMessage eType eStack eContext =
     toLowerCase (eMessage @ '' '' @ eType @ '' '' @ eStack @ '' '' @ eContext)"

definition matchCount :: "string \<Rightarrow> pattern \<Rightarrow> nat" where
  "matchCount text p = length (filter (\<lambda>kw. includes' text kw) (keywords' p))"

text \<open>
  The loop over the patterns, with its two variables \<^verbatim>\<open>bestMatch\<close> and
  \<^verbatim>\<open>maxMatches\<close> as the accumulator.
\<close>

fun bestMatchLoop :: "string \<Rightarrow> pattern list \<Rightarrow> pattern \<times> nat \<Rightarrow> pattern \<times> nat" where
  "bestMatchLoop text [] (bestMatch, maxMatches) = (bestMatch, maxMatches)"
| "bestMatchLoop text (p # ps) (bestMatch, maxMatches) =
     (if matchCount text p > maxMatches
      then bestMatchLoop text ps (p, matchCount text p)
      else bestMatchLoop text ps (bestMatch, maxMatches))"

definition findBestMatch :: "string \<Rightarrow> pattern" where
  "findBestMatch text = fst (bestMatchLoop text ERROR_PATTERNS (runtime, 0))"

definition fallbackAnalyzer :: "string \<Rightarrow> string \<Rightarrow> string \<Rightarrow> string \<Rightarrow> AnalysisResult" where
  "fallbackAnalyzer eMessage eType eStack eContext =
     (let bestMatch = findBestMatch (fullText eMessage eType eStack eContext)
      in \<lparr> severity = pat_severity bestMatch,
           rootCause = eType @ '': '' @ eMessage,
           recommendations = pat_recommendations bestMatch,
           relatedErrors = [],
           category = pat_category bestMatch,
           confidenceScore = Some 0.5,
           analysisMetadata = None \<rparr>)"

section \<open>Record store\<close>

text \<open>
  The store keeps the whole collection in one file. The model of the disk says whether
  the directory and the file exist and, for the file, what \<^verbatim>\<open>JSON.parse\<close> makes
  of its text: a syntax error (\<open>Garbage\<close>) or the array of records it denotes
  (\<open>Json\<close>). Writing \<^verbatim>\<open>JSON.stringify(errors, null, 2)\<close> leaves a text that
  parses back to \<open>errors\<close>. The disk accepts every write.
\<close>

datatype content = Garbage | Json "ErrorRecord list"

datatype disk = NoDir | NoFile | File content

definition existsSync_dir :: "disk \<Rightarrow> bool" where
  "existsSync_dir d = (d \<noteq> NoDir)"

definition existsSync_file :: "disk \<Rightarrow> bool" where
  "existsSync_file d = (case d of File c \<Rightarrow> True | _ \<Rightarrow> False)"

definition mkdirSync :: "disk \<Rightarrow> disk" where
  "mkdirSync d = (case d of NoDir \<Rightarrow> NoFile | _ \<Rightarrow> d)"

definition writeFileSync :: "content \<Rightarrow> disk \<Rightarrow> disk" where
  "writeFileSync c d = File c"

definition readFileSync :: "disk \<Rightarrow> exn + content" where
  "readFileSync d = (case d of File c \<Rightarrow> Inr c | _ \<Rightarrow> Inl ENOENT)"

definition JSON_parse :: "content \<Rightarrow> exn + ErrorRecord list" where
  "JSON_parse c = (case c of Garbage \<Rightarrow> Inl SyntaxError | Json errors \<Rightarrow> Inr errors)"

definition ensureDbFile :: "disk \<Rightarrow> disk" where
  "ensureDbFile d =
     (let d1 = (if \<not> existsSync_dir d then mkdirSync d else d)
      in if \<not> existsSync_file d1 then writeFileSync (Json []) d1 else d1)"

text \<open>The \<^verbatim>\<open>try\<close> block reads and parses; the \<^verbatim>\<open>catch\<close> answers the empty array.\<close>

definition getAllErrors :: "disk \<Rightarrow> ErrorRecord list \<times> disk" where
  "getAllErrors d =
     (let d1 = ensureDbFile d
      in (case readFileSync d1 of
            Inl e \<Rightarrow> []
          | Inr data \<Rightarrow> (case JSON_parse data of Inl e \<Rightarrow> [] | Inr errors \<Rightarrow> errors),
          d1))"

definition getErrorById :: "string \<Rightarrow> disk \<Rightarrow> ErrorRecord option \<times> disk" where
  "getErrorById i d = (let (errors, d1) = getAllErrors d in (find (\<lambda>e. id' e = i) errors, d1))"

text \<open>
  \<^verbatim>\<open>Number.prototype.toString\<close> on an integer: its decimal digits, after a minus sign
  when it is negative.
\<close>

definition digit :: "nat \<Rightarrow> char" where
  "digit d = ''0123456789'' ! d"

fun digits :: "nat \<Rightarrow> string" where
  "digits n = (if n < 10 then [digit n] else digits (n div 10) @ [digit (n mod 10)])"

declare digits.simps [simp del]

definition toString :: "int \<Rightarrow> string" where
  "toString n = (if n < 0 then CHR ''-'' # digits (nat (- n)) else digits (nat n))"

text \<open>
  \<^verbatim>\<open>saveError\<close> reads the clock twice: \<open>now1\<close> is the value of the first
  \<^verbatim>\<open>Date.now()\<close>, which becomes the id, \<open>now2\<close> the value of the second, which
  becomes the timestamp.
\<close>

definition saveError :: "int \<Rightarrow> int \<Rightarrow> ErrorInput \<Rightarrow> disk \<Rightarrow> ErrorRecord \<times> disk" where
  "saveError now1 now2 error d =
     (let d1 = ensureDbFile d;
          (errors, d2) = getAllErrors d1;
          newError = \<lparr> errorMessage = errorMessage error,
                       errorType = errorType error,
                       stackTrace = stackTrace error,
                       context' = context' error,
                       analysis = analysis error,
                       id' = toString now1,
                       timestamp = now2 \<rparr>
      in (newError, writeFileSync (Json (errors @ [newError])) d2))"

text \<open>
  \<^verbatim>\<open>Partial<ErrorRecord>\<close>: every field of the record, each one present or absent.
\<close>

record ErrorUpdates =
  upd_id :: "string option"
  upd_timestamp :: "int option"
  upd_errorMessage :: "string option"
  upd_errorType :: "string option"
  upd_stackTrace :: "string option"
  upd_context :: "string option"
  upd_analysis :: "AnalysisResult option"

text \<open>The object spread \<^verbatim>\<open>{ ...e, ...updates }\<close>: a field present in \<open>updates\<close> wins.\<close>

definition spread :: "ErrorRecord \<Rightarrow> ErrorUpdates \<Rightarrow> ErrorRecord" where
  "spread e updates =
     \<lparr> errorMessage = (case upd_errorMessage updates of None \<Rightarrow> errorMessage e | Some v \<Rightarrow> v),
       errorType = (case upd_errorType updates of None \<Rightarrow> errorType e | Some v \<Rightarrow> v),
       stackTrace = (case upd_stackTrace updates of None \<Rightarrow> stackTrace e | Some v \<Rightarrow> v),
       context' = (case upd_context updates of None \<Rightarrow> context' e | Some v \<Rightarrow> v),
       analysis = (case upd_analysis updates of None \<Rightarrow> analysis e | Some v \<Rightarrow> Some v),
       id' = (case upd_id updates of None \<Rightarrow> id' e | Some v \<Rightarrow> v),
       timestamp = (case upd_timestamp updates of None \<Rightarrow> timestamp e | Some v \<Rightarrow> v) \<rparr>"

text \<open>\<^verbatim>\<open>Array.prototype.findIndex\<close>: the first index that satisfies the test, or -1.\<close>

fun findIndex :: "('a \<Rightarrow> bool) \<Rightarrow> 'a list \<Rightarrow> int" where
  "findIndex P [] = - 1"
| "findIndex P (x # xs) =
     (if P x then 0 else (let r = findIndex P xs in if r = - 1 then - 1 else r + 1))"

definition updateError :: "string \<Rightarrow> ErrorUpdates \<Rightarrow> disk \<Rightarrow> ErrorRecord option \<times> disk" where
  "updateError i updates d =
     (let d1 = ensureDbFile d;
          (errors, d2) = getAllErrors d1;
          index = findIndex (\<lambda>e. id' e = i) errors
      in if index = - 1 then (None, d2)
         else (let errors' = errors[nat index := spread (errors ! nat index) updates]
               in (Some (errors' ! nat index), writeFileSync (Json errors') d2)))"

definition deleteError :: "string \<Rightarrow> disk \<Rightarrow> bool \<times> disk" where
  "deleteError i d =
     (let d1 = ensureDbFile d;
          (errors, d2) = getAllErrors d1;
          filtered = filter (\<lambda>e. id' e \<noteq> i) errors
      in if length filtered = length errors then (False, d2)
         else (True, writeFileSync (Json filtered) d2))"

text \<open>
  A number as \<^verbatim>\<open>parseInt\<close> returns it: an integer or \<^verbatim>\<open>NaN\<close>.
\<close>

datatype number = NaN | Num int

text \<open>
  \<^verbatim>\<open>xs.slice(0, fin)\<close>: \<^verbatim>\<open>NaN\<close> counts as 0, a negative \<open>fin\<close> counts from the end
  of the array, and the result never runs past the array.
\<close>

definition slice0 :: "'a list \<Rightarrow> number \<Rightarrow> 'a list" where
  "slice0 xs fin =
     (case fin of
        NaN \<Rightarrow> []
      | Num k \<Rightarrow> if k < 0 then take (nat (int (length xs) + k)) xs else take (nat k) xs)"

text \<open>
  \<^verbatim>\<open>Array.prototype.sort\<close> with a comparison function: a stable sort, here by
  insertion. \<open>x\<close> stays before \<open>y\<close> unless the comparison is positive.
\<close>

fun insert' :: "('a \<Rightarrow> 'a \<Rightarrow> int) \<Rightarrow> 'a \<Rightarrow> 'a list \<Rightarrow> 'a list" where
  "insert' cmp x [] = [x]"
| "insert' cmp x (y # ys) = (if cmp x y \<le> 0 then x # y # ys else y # insert' cmp x ys)"

definition sort' :: "('a \<Rightarrow> 'a \<Rightarrow> int) \<Rightarrow> 'a list \<Rightarrow> 'a list" where
  "sort' cmp xs = foldr (insert' cmp) xs []"

definition getRecentErrors :: "number option \<Rightarrow> disk \<Rightarrow> ErrorRecord list \<times> disk" where
  "getRecentErrors arg d =
     (let limit = (case arg of None \<Rightarrow> Num 10 | Some n \<Rightarrow> n);
          (errors, d1) = getAllErrors d
      in (slice0 (sort' (\<lambda>a b. timestamp b - timestamp a) errors) limit, d1))"

section \<open>Analysis gateway\<close>

text \<open>
  The request sent to the external service and the body of its answer, in the snake
  case of the wire.
\<close>

record api_request =
  error_message :: string
  error_type :: string
  stack_trace :: string
  context_text :: string

record api_metadata =
  md_model :: string
  md_timestamp :: int
  processing_time_ms :: int

record api_data =
  data_severity :: severity
  data_category :: string
  root_cause :: string
  data_recommendations :: "string list"
  related_errors :: "string list"
  confidence_score :: "real option"
  analysis_metadata :: "api_metadata option"

text \<open>
  What \<^verbatim>\<open>response.json()\<close> or \<^verbatim>\<open>request.json()\<close> makes of a body: a rejection
  (\<open>NotJson\<close>), the value \<^verbatim>\<open>null\<close>, whose properties cannot be read, or an object.
\<close>

datatype 'a json = NotJson | JsonNull | JsonObject 'a

text \<open>
  What the one \<^verbatim>\<open>fetch\<close> of \<^verbatim>\<open>analyzeError\<close> comes to. \<open>Rejected\<close>: the promise
  rejects, with a \<open>TypeError\<close> when the network fails and a \<open>TimeoutError\<close> when the
  30 second signal aborts. \<open>NotOk status body\<close>: a response with \<^verbatim>\<open>response.ok\<close>
  false (a status outside 200 to 299), whose body may carry a \<^verbatim>\<open>detail\<close> string.
  \<open>Ok body\<close>: a response with \<^verbatim>\<open>response.ok\<close> true; an object in its body has the
  shape of the service's contract.
\<close>

datatype fetch_outcome =
  Rejected exn
| NotOk nat "string option json"
| Ok "api_data json"

text \<open>The \<^verbatim>\<open>try\<close> block of \<^verbatim>\<open>analyzeError\<close>.\<close>

definition analyzeError_try :: "fetch_outcome \<Rightarrow> exn + AnalysisResult" where
  "analyzeError_try outcome =
     (case outcome of
        Rejected e \<Rightarrow> Inl e
      | NotOk status body \<Rightarrow>
          (let errorData = (case body of NotJson \<Rightarrow> JsonObject None | _ \<Rightarrow> body)
           in case errorData of
                JsonObject detail \<Rightarrow>
                  Inl (Error (case detail of
                                None \<Rightarrow> ''API error: '' @ digits status
                              | Some msg \<Rightarrow> if msg = [] then ''API error: '' @ digits status
                                           else msg))
              | _ \<Rightarrow> Inl TypeError)
      | Ok body \<Rightarrow>
          (case body of
             NotJson \<Rightarrow> Inl SyntaxError
           | JsonNull \<Rightarrow> Inl TypeError
           | JsonObject data \<Rightarrow>
               Inr \<lparr> severity = data_severity data,
                     rootCause = root_cause data,
                     recommendations = data_recommendations data,
                     relatedErrors = related_errors data,
                     category = data_category data,
                     confidenceScore = confidence_score data,
                     analysisMetadata =
                       (case analysis_metadata data of
                          None \<Rightarrow> None
                        | Some m \<Rightarrow> Some \<lparr> model = md_model m,
                                           meta_timestamp = md_timestamp m,
                                           processingTimeMs = processing_time_ms m \<rparr>) \<rparr>))"

text \<open>
  \<^verbatim>\<open>analyzeError\<close> sends one request, which joins the requests \<open>sent\<close> so far, and
  answers what the \<^verbatim>\<open>try\<close> block returns or, from the \<^verbatim>\<open>catch\<close>, the fallback
  classifier's result. \<open>Inl\<close> would be an exception that reaches the caller.
\<close>

definition analyzeError ::
  "fetch_outcome \<Rightarrow> string \<Rightarrow> string \<Rightarrow> string \<Rightarrow> string \<Rightarrow> api_request list
     \<Rightarrow> (exn + AnalysisResult) \<times> api_request list" where
  "analyzeError outcome eMessage eType eStack eContext sent =
     (let request = \<lparr> error_message = eMessage, error_type = eType,
                      stack_trace = eStack, context_text = eContext \<rparr>
      in (case analyzeError_try outcome of
            Inl e \<Rightarrow> Inr (fallbackAnalyzer eMessage eType eStack eContext)
          | Inr result \<Rightarrow> Inr result,
          sent @ [request]))"

section \<open>HTTP API\<close>

datatype payload = Records "ErrorRecord list" | Record ErrorRecord | Failure string

datatype http_response = Respond nat payload

text \<open>The state the handlers act on: the disk and the requests sent to the service.\<close>

record world =
  disk :: disk
  sent :: "api_request list"



text \<open>\<^verbatim>\<open>!x\<close> on an optional string: true when it is absent or empty.\<close>

definition falsy :: "string option \<Rightarrow> bool" where
  "falsy x = (x = None \<or> x = Some [])"

text \<open>\<^verbatim>\<open>x || ''\<close> on an optional string; for a string that is not falsy it is the string.\<close>

definition or_empty :: "string option \<Rightarrow> string" where
  "or_empty x = (case x of None \<Rightarrow> [] | Some s \<Rightarrow> s)"


text \<open>
  \<^verbatim>\<open>parseInt\<close> with no radix: white space is skipped, a sign is read, \<^verbatim>\<open>0x\<close> selects
  radix 16, and the longest run of digits gives the value; no digit gives \<^verbatim>\<open>NaN\<close>.
\<close>

definition isWhiteSpace :: "char \<Rightarrow> bool" where
  "isWhiteSpace c = ((of_char c :: nat) \<in> {9, 10, 11, 12, 13, 32})"

definition digitValue :: "nat \<Rightarrow> char \<Rightarrow> nat option" where
  "digitValue radix c =
     (let n = (of_char c :: nat);
          v = (if 48 \<le> n \<and> n \<le> 57 then n - 48
               else if 97 \<le> n \<and> n \<le> 122 then n - 87
               else if 65 \<le> n \<and> n \<le> 90 then n - 55
               else radix)
      in if v < radix then Some v else None)"

fun parseDigits :: "nat \<Rightarrow> string \<Rightarrow> nat option \<Rightarrow> nat option" where
  "parseDigits radix [] acc = acc"
| "parseDigits radix (c # cs) acc =
     (case digitValue radix c of
        None \<Rightarrow> acc
      | Some v \<Rightarrow> parseDigits radix cs (Some (case acc of None \<Rightarrow> v | Some a \<Rightarrow> a * radix + v)))"

definition parseInt :: "string \<Rightarrow> number" where
  "parseInt s =
     (let s1 = dropWhile isWhiteSpace s;
          sign = (if s1 \<noteq> [] \<and> hd s1 = CHR ''-'' then - 1 else 1);
          s2 = (if s1 \<noteq> [] \<and> (hd s1 = CHR ''+'' \<or> hd s1 = CHR ''-'') then tl s1 else s1);
          hex = (prefix ''0x'' s2 \<or> prefix ''0X'' s2);
          radix = (if hex then 16 else 10);
          s3 = (if hex then drop 2 s2 else s2)
      in case parseDigits radix s3 None of
           None \<Rightarrow> NaN
         | Some n \<Rightarrow> Num (sign * int n))"

text \<open>
  The list handler. \<open>limit\<close> is \<^verbatim>\<open>searchParams.get('limit')\<close>: \<open>None\<close> when the
  parameter is absent. An empty string is falsy, as an absent parameter is.
\<close>

definition GET :: "string option \<Rightarrow> disk \<Rightarrow> http_response \<times> disk" where
  "GET limit d =
     (let (errors, d') = (if \<not> falsy limit
                          then getRecentErrors (Some (parseInt (or_empty limit))) d
                          else getAllErrors d)
      in (Respond 200 (Records errors), d'))"

section \<open>Views used in the statements\<close>

text \<open>The collection as \<^verbatim>\<open>getAllErrors\<close> reads it from the disk.\<close>

definition stored :: "disk \<Rightarrow> ErrorRecord list" where
  "stored d = fst (getAllErrors d)"

text \<open>A sequence of \<^verbatim>\<open>updateError\<close> calls, each on the disk the one before left.\<close>

fun updateErrors :: "(string \<times> ErrorUpdates) list \<Rightarrow> disk \<Rightarrow> disk" where
  "updateErrors [] d = d"
| "updateErrors ((i, updates) # calls) d = updateErrors calls (snd (updateError i updates d))"

text \<open>A record and a create input for the worked examples.\<close>

definition example_input :: ErrorInput where
  "example_input = \<lparr> errorMessage = ''boom'', errorType = ''Error'', stackTrace = [],
                       context' = [], analysis = None \<rparr>"

definition example_record :: "string \<Rightarrow> int \<Rightarrow> ErrorRecord" where
  "example_record i t = \<lparr> errorMessage = ''boom'', errorType = ''Error'', stackTrace = [],
                          context' = [], analysis = None, id' = i, timestamp = t \<rparr>"

section \<open>The fallback classifier chooses the best pattern\<close>

lemma bestMatchLoop_keep:
  "\<forall>p\<in>set ps. matchCount text p \<le> m \<Longrightarrow> bestMatchLoop text ps (b, m) = (b, m)"
  by (induction ps) auto

lemma bestMatchLoop_pick:
  "\<exists>p\<in>set ps. m < matchCount text p \<Longrightarrow>
   \<exists>pre q post. ps = pre @ q # post \<and> bestMatchLoop text ps (b, m) = (q, matchCount text q)
     \<and> (\<forall>p\<in>set pre. matchCount text p < matchCount text q)
     \<and> (\<forall>p\<in>set post. matchCount text p \<le> matchCount text q)
     \<and> m < matchCount text q"
proof (induction ps arbitrary: b m)
  case Nil
  then show ?case by simp
next
  case (Cons p ps)
  show ?case
  proof (cases "m < matchCount text p")
    case higher: True
    show ?thesis
    proof (cases "\<exists>r\<in>set ps. matchCount text p < matchCount text r")
      case True
      from Cons.IH[OF True, of p] obtain pre q post where
        d: "ps = pre @ q # post"
        and r: "bestMatchLoop text ps (p, matchCount text p) = (q, matchCount text q)"
        and e: "\<forall>x\<in>set pre. matchCount text x < matchCount text q"
        and l: "\<forall>x\<in>set post. matchCount text x \<le> matchCount text q"
        and g: "matchCount text p < matchCount text q"
        by blast
      have "p # ps = (p # pre) @ q # post" using d by simp
      moreover have "bestMatchLoop text (p # ps) (b, m) = (q, matchCount text q)"
        using higher r by simp
      moreover have "\<forall>x\<in>set (p # pre). matchCount text x < matchCount text q"
        using e g by simp
      moreover have "m < matchCount text q" using higher g by simp
      ultimately show ?thesis using l by blast
    next
      case False
      then have "\<forall>r\<in>set ps. matchCount text r \<le> matchCount text p" by auto
      then have "bestMatchLoop text ps (p, matchCount text p) = (p, matchCount text p)"
        by (rule bestMatchLoop_keep)
      then have "bestMatchLoop text (p # ps) (b, m) = (p, matchCount text p)"
        using higher by simp
      moreover have "p # ps = [] @ p # ps" by simp
      moreover have "\<forall>x\<in>set ps. matchCount text x \<le> matchCount text p"
        using False by auto
      ultimately show ?thesis using higher
        by (metis empty_iff list.set(1))
    qed
  next
    case lower: False
    with Cons.prems have "\<exists>r\<in>set ps. m < matchCount text r" by auto
    from Cons.IH[OF this, of b] obtain pre q post where
      d: "ps = pre @ q # post"
      and r: "bestMatchLoop text ps (b, m) = (q, matchCount text q)"
      and e: "\<forall>x\<in>set pre. matchCount text x < matchCount text q"
      and l: "\<forall>x\<in>set post. matchCount text x \<le> matchCount text q"
      and g: "m < matchCount text q"
      by blast
    have "p # ps = (p # pre) @ q # post" using d by simp
    moreover have "bestMatchLoop text (p # ps) (b, m) = (q, matchCount text q)"
      using lower r by simp
    moreover have "\<forall>x\<in>set (p # pre). matchCount text x < matchCount text q"
      using e g lower by auto
    ultimately show ?thesis using l g by blast
  qed
qed

lemma bestMatchLoop_member:
  "fst (bestMatchLoop text ps (b, m)) \<in> insert b (set ps)"
  by (induction ps arbitrary: b m) auto

lemma findBestMatch_cases:
  "findBestMatch text = database \<or> findBestMatch text = network \<or> findBestMatch text = runtime"
  using bestMatchLoop_member[of "text" ERROR_PATTERNS runtime 0]
  by (auto simp: findBestMatch_def ERROR_PATTERNS_def)

lemma matchCount_pos:
  "kw \<in> set (keywords' p) \<Longrightarrow> includes' text kw \<Longrightarrow> 0 < matchCount text p"
  by (auto simp: matchCount_def filter_empty_conv)

lemma findBestMatch_database:
  assumes "0 < matchCount text database"
    and "matchCount text network \<le> matchCount text database"
    and "matchCount text runtime \<le> matchCount text database"
  shows "findBestMatch text = database"
  using assms by (simp add: findBestMatch_def ERROR_PATTERNS_def)

text \<open>
  C3 (as amended). The classifier's category, severity and recommendations are those of
  the chosen pattern. When no pattern matches a keyword the chosen pattern is the default,
  \<open>runtime\<close>. Otherwise the chosen pattern is a declared one, every pattern declared
  before it matches strictly fewer keywords of the lowercased text, and every pattern
  declared after it matches no more: the highest count, and the earliest pattern on a
  tie. An input that contains "timeout" and "database" has category "Database" whenever
  neither the network nor the runtime pattern matches more keywords than the database
  pattern does.
\<close>

theorem fallbackAnalyzer_best_match:
  "category (fallbackAnalyzer eMessage eType eStack eContext)
     = pat_category (findBestMatch (fullText eMessage eType eStack eContext))
   \<and> ((\<forall>p\<in>set ERROR_PATTERNS. matchCount text p = 0) \<longrightarrow> findBestMatch text = runtime)
   \<and> ((\<exists>p\<in>set ERROR_PATTERNS. 0 < matchCount text p) \<longrightarrow>
        (\<exists>pre post. ERROR_PATTERNS = pre @ findBestMatch text # post
           \<and> (\<forall>p\<in>set pre. matchCount text p < matchCount text (findBestMatch text))
           \<and> (\<forall>p\<in>set post. matchCount text p \<le> matchCount text (findBestMatch text))))
   \<and> (includes' text ''timeout'' \<and> includes' text ''database''
        \<and> matchCount text network \<le> matchCount text database
        \<and> matchCount text runtime \<le> matchCount text database
        \<longrightarrow> pat_category (findBestMatch text) = ''Database'')"
proof (intro conjI impI)
  show "category (fallbackAnalyzer eMessage eType eStack eContext)
     = pat_category (findBestMatch (fullText eMessage eType eStack eContext))"
    by (simp add: fallbackAnalyzer_def Let_def)
next
  assume "\<forall>p\<in>set ERROR_PATTERNS. matchCount text p = 0"
  then have "\<forall>p\<in>set ERROR_PATTERNS. matchCount text p \<le> 0" by simp
  then show "findBestMatch text = runtime"
    by (simp only: findBestMatch_def bestMatchLoop_keep fst_conv)
next
  assume "\<exists>p\<in>set ERROR_PATTERNS. 0 < matchCount text p"
  from bestMatchLoop_pick[OF this, of runtime] obtain pre q post where
    d: "ERROR_PATTERNS = pre @ q # post"
    and r: "bestMatchLoop text ERROR_PATTERNS (runtime, 0) = (q, matchCount text q)"
    and e: "\<forall>x\<in>set pre. matchCount text x < matchCount text q"
    and l: "\<forall>x\<in>set post. matchCount text x \<le> matchCount text q"
    by blast
  from r have "findBestMatch text = q" by (simp add: findBestMatch_def)
  with d e l show "\<exists>pre post. ERROR_PATTERNS = pre @ findBestMatch text # post
           \<and> (\<forall>p\<in>set pre. matchCount text p < matchCount text (findBestMatch text))
           \<and> (\<forall>p\<in>set post. matchCount text p \<le> matchCount text (findBestMatch text))"
    by blast
next
  assume a: "includes' text ''timeout'' \<and> includes' text ''database''
        \<and> matchCount text network \<le> matchCount text database
        \<and> matchCount text runtime \<le> matchCount text database"
  have "''timeout'' \<in> set (keywords' database)" by (simp add: database_def)
  with a have "0 < matchCount text database" by (blast intro: matchCount_pos)
  with a have "findBestMatch text = database" by (simp add: findBestMatch_database)
  then show "pat_category (findBestMatch text) = ''Database''" by (simp add: database_def)
qed

theorem fallbackAnalyzer_best_match_witness:
  "matchCount (fullText ''It broke'' ''Oops'' [] []) database = 0
   \<and> matchCount (fullText ''It broke'' ''Oops'' [] []) network = 0
   \<and> matchCount (fullText ''It broke'' ''Oops'' [] []) runtime = 0
   \<and> findBestMatch (fullText ''It broke'' ''Oops'' [] []) = runtime
   \<and> (\<exists>p\<in>set ERROR_PATTERNS. 0 < matchCount (fullText ''Database timeout'' ''Error'' [] []) p)
   \<and> includes' (fullText ''Database timeout'' ''Error'' [] []) ''timeout''
   \<and> includes' (fullText ''Database timeout'' ''Error'' [] []) ''database''
   \<and> matchCount (fullText ''Database timeout'' ''Error'' [] []) network
        \<le> matchCount (fullText ''Database timeout'' ''Error'' [] []) database
   \<and> matchCount (fullText ''Database timeout'' ''Error'' [] []) runtime
        \<le> matchCount (fullText ''Database timeout'' ''Error'' [] []) database
   \<and> category (fallbackAnalyzer ''Database timeout'' ''Error'' [] []) = ''Database''"
proof -
  have z3: "matchCount (fullText ''It broke'' ''Oops'' [] []) database = 0
      \<and> matchCount (fullText ''It broke'' ''Oops'' [] []) network = 0
      \<and> matchCount (fullText ''It broke'' ''Oops'' [] []) runtime = 0"
    by code_simp
  then have z: "\<forall>p\<in>set ERROR_PATTERNS. matchCount (fullText ''It broke'' ''Oops'' [] []) p = 0"
    by (simp add: ERROR_PATTERNS_def)
  have i1: "includes' (fullText ''Database timeout'' ''Error'' [] []) ''timeout''"
    by code_simp
  have i2: "includes' (fullText ''Database timeout'' ''Error'' [] []) ''database''"
    by code_simp
  have n: "matchCount (fullText ''Database timeout'' ''Error'' [] []) network
        \<le> matchCount (fullText ''Database timeout'' ''Error'' [] []) database"
    by code_simp
  have r: "matchCount (fullText ''Database timeout'' ''Error'' [] []) runtime
        \<le> matchCount (fullText ''Database timeout'' ''Error'' [] []) database"
    by code_simp
  have p: "\<exists>p\<in>set ERROR_PATTERNS. 0 < matchCount (fullText ''Database timeout'' ''Error'' [] []) p"
    by code_simp
  note t1 = fallbackAnalyzer_best_match
    [of "''Database timeout''" "''Error''" "[]" "[]" "fullText ''It broke'' ''Oops'' [] []"]
  note t2 = fallbackAnalyzer_best_match
    [of "''Database timeout''" "''Error''" "[]" "[]" "fullText ''Database timeout'' ''Error'' [] []"]
  from t1 z have a: "findBestMatch (fullText ''It broke'' ''Oops'' [] []) = runtime"
    by blast
  from t2 i1 i2 n r
  have b: "category (fallbackAnalyzer ''Database timeout'' ''Error'' [] []) = ''Database''"
    by simp
  from z3 a p i1 i2 n r b show ?thesis by blast
qed

text \<open>
  The claim as it stands fails: this input contains "timeout" and "database", the
  database pattern matches two of its keywords (timeout, database) and the network pattern
  one (timeout), so the database pattern does match more keywords than the network
  pattern; yet the runtime pattern matches three (undefined, null, cannot read) and the
  category is "Runtime".
\<close>

theorem fallbackAnalyzer_timeout_database_counterexample:
  "includes' (fullText ''database timeout: cannot read null of undefined'' ''Error'' [] [])
     ''timeout''
   \<and> includes' (fullText ''database timeout: cannot read null of undefined'' ''Error'' [] [])
     ''database''
   \<and> matchCount (fullText ''database timeout: cannot read null of undefined'' ''Error'' [] [])
       database = 2
   \<and> matchCount (fullText ''database timeout: cannot read null of undefined'' ''Error'' [] [])
       network = 1
   \<and> matchCount (fullText ''database timeout: cannot read null of undefined'' ''Error'' [] [])
       runtime = 3
   \<and> category (fallbackAnalyzer ''database timeout: cannot read null of undefined''
       ''Error'' [] []) = ''Runtime''
   \<and> category (fallbackAnalyzer ''database timeout: cannot read null of undefined''
       ''Error'' [] []) \<noteq> ''Database''"
  by code_simp

text \<open>
  C9. The fallback classifier's result has severity \<open>high\<close>, whatever the input, an
  empty list of related errors and no analysis metadata.
\<close>

theorem fallbackAnalyzer_always_high:
  "severity (fallbackAnalyzer eMessage eType eStack eContext) = high
   \<and> severity (fallbackAnalyzer eMessage eType eStack eContext) \<notin> {critical, medium, low}
   \<and> relatedErrors (fallbackAnalyzer eMessage eType eStack eContext) = []
   \<and> analysisMetadata (fallbackAnalyzer eMessage eType eStack eContext) = None"
proof -
  have "pat_severity (findBestMatch (fullText eMessage eType eStack eContext)) = high"
    using findBestMatch_cases[of "fullText eMessage eType eStack eContext"]
    by (auto simp: database_def network_def runtime_def)
  then show ?thesis by (simp add: fallbackAnalyzer_def Let_def)
qed

theorem fallbackAnalyzer_always_high_witness:
  "severity (fallbackAnalyzer ''Cannot read property map of undefined'' ''TypeError'' [] []) = high
   \<and> category (fallbackAnalyzer ''Cannot read property map of undefined'' ''TypeError'' [] [])
       = ''Runtime''"
proof -
  have "category (fallbackAnalyzer ''Cannot read property map of undefined'' ''TypeError'' [] [])
       = ''Runtime''"
    by code_simp
  with fallbackAnalyzer_always_high
    [of "''Cannot read property map of undefined''" "''TypeError''" "[]" "[]"]
  show ?thesis by simp
qed

section \<open>Ids are decimal strings of clock values\<close>

lemma digit_inj: "a < 10 \<Longrightarrow> b < 10 \<Longrightarrow> digit a = digit b \<Longrightarrow> a = b"
proof -
  assume a: "a < 10" and b: "b < 10" and e: "digit a = digit b"
  have d: "distinct ''0123456789''" by simp
  have "length ''0123456789'' = 10" by simp
  with a b e d show ?thesis
    unfolding digit_def by (metis nth_eq_iff_index_eq)
qed

lemma digit_not_minus: "d < 10 \<Longrightarrow> digit d \<noteq> CHR ''-''"
proof -
  assume "d < 10"
  moreover have "length ''0123456789'' = 10" by simp
  ultimately have "''0123456789'' ! d \<in> set ''0123456789''"
    by (metis nth_mem)
  then show ?thesis unfolding digit_def by auto
qed

lemma digits_nonempty2: "[] \<noteq> digits n"
  by (subst digits.simps) simp

lemma digits_nonempty: "digits n \<noteq> []"
  by (subst digits.simps) simp

lemma last_digits: "last (digits n) = digit (n mod 10)"
  by (subst digits.simps) simp

lemma butlast_digits: "butlast (digits n) = (if n < 10 then [] else digits (n div 10))"
  by (subst digits.simps) simp

lemma hd_digits: "hd (digits n) \<noteq> CHR ''-''"
proof (induction n rule: digits.induct)
  case (1 n)
  show ?case
  proof (cases "n < 10")
    case True
    then show ?thesis by (subst digits.simps) (simp add: digit_not_minus)
  next
    case False
    with 1 have "hd (digits (n div 10)) \<noteq> CHR ''-''" by simp
    with False show ?thesis
      by (subst digits.simps) (simp add: digits_nonempty)
  qed
qed

lemma digits_inj: "digits n = digits m \<Longrightarrow> n = m"
proof (induction n arbitrary: m rule: digits.induct)
  case (1 n)
  from "1.prems" have l: "digit (n mod 10) = digit (m mod 10)"
    by (metis last_digits)
  then have m10: "n mod 10 = m mod 10"
    by (intro digit_inj) simp_all
  from "1.prems" have b: "butlast (digits n) = butlast (digits m)" by simp
  show ?case
  proof (cases "n < 10")
    case True
    with b have "m < 10"
      by (simp add: butlast_digits digits_nonempty2 split: if_splits)
    with True m10 show ?thesis by simp
  next
    case False
    with b have mge: "\<not> m < 10" and e: "digits (n div 10) = digits (m div 10)"
      by (auto simp add: butlast_digits digits_nonempty split: if_splits)
    from "1.IH"[OF False e] have "n div 10 = m div 10" .
    with m10 show ?thesis by (metis div_mult_mod_eq)
  qed
qed

lemma toString_inj: "toString a = toString b \<Longrightarrow> a = b"
proof -
  assume e: "toString a = toString b"
  have neg: "\<And>x y. x < 0 \<Longrightarrow> \<not> y < 0 \<Longrightarrow> toString x \<noteq> toString y"
  proof
    fix x y :: int
    assume "x < 0" "\<not> y < 0" "toString x = toString y"
    then have "hd (digits (nat y)) = CHR ''-''"
      by (simp add: toString_def) (metis list.sel(1))
    then show False by (simp add: hd_digits)
  qed
  show ?thesis
  proof (cases "a < 0")
    case True
    show ?thesis
    proof (cases "b < 0")
      case True
      with \<open>a < 0\<close> e have "nat (- a) = nat (- b)"
        by (simp add: toString_def digits_inj)
      with True \<open>a < 0\<close> show ?thesis by simp
    next
      case False
      with neg[OF True False] e show ?thesis by simp
    qed
  next
    case False
    show ?thesis
    proof (cases "b < 0")
      case True
      with neg[OF True False] e show ?thesis by simp
    next
      case bf: False
      with False e have "nat a = nat b"
        by (simp add: toString_def digits_inj)
      with False bf show ?thesis by simp
    qed
  qed
qed

section \<open>Reading the store\<close>

lemma ensureDbFile_eq:
  "ensureDbFile d = (case d of File c \<Rightarrow> File c | _ \<Rightarrow> File (Json []))"
  by (cases d)
     (simp_all add: ensureDbFile_def existsSync_dir_def existsSync_file_def mkdirSync_def
        writeFileSync_def)

lemma getAllErrors_NoDir: "getAllErrors NoDir = ([], File (Json []))"
  by (simp add: getAllErrors_def ensureDbFile_eq readFileSync_def JSON_parse_def)

lemma getAllErrors_NoFile: "getAllErrors NoFile = ([], File (Json []))"
  by (simp add: getAllErrors_def ensureDbFile_eq readFileSync_def JSON_parse_def)

lemma getAllErrors_Garbage: "getAllErrors (File Garbage) = ([], File Garbage)"
  by (simp add: getAllErrors_def ensureDbFile_eq readFileSync_def JSON_parse_def)

lemma getAllErrors_Json: "getAllErrors (File (Json errors)) = (errors, File (Json errors))"
  by (simp add: getAllErrors_def ensureDbFile_eq readFileSync_def JSON_parse_def)

lemmas getAllErrors_simps =
  getAllErrors_NoDir getAllErrors_NoFile getAllErrors_Garbage getAllErrors_Json

lemma disk_cases:
  obtains "d = NoDir" | "d = NoFile" | "d = File Garbage" | errors where "d = File (Json errors)"
proof (cases d)
  case (File c)
  then show ?thesis using that by (cases c) auto
qed (use that in auto)

lemma stored_simps:
  "stored NoDir = []" "stored NoFile = []" "stored (File Garbage) = []"
  "stored (File (Json errors)) = errors"
  by (simp_all add: stored_def getAllErrors_simps)

lemma getAllErrors_twice: "getAllErrors (snd (getAllErrors d)) = getAllErrors d"
  by (cases d rule: disk_cases) (simp_all add: getAllErrors_simps)

lemma ensureDbFile_getAllErrors:
  "getAllErrors (ensureDbFile d) = getAllErrors d"
  by (cases d rule: disk_cases) (simp_all add: getAllErrors_simps ensureDbFile_eq)

text \<open>
  C8. \<^verbatim>\<open>getAllErrors\<close> answers the empty array when the directory or the file is
  missing (it first creates the file with an empty array), and when the file's text does
  not parse, from its \<^verbatim>\<open>catch\<close>; when the text parses it answers the whole stored
  collection. It has no other outcome: in each case it returns.
\<close>

theorem getAllErrors_swallows_failures:
  "fst (getAllErrors NoDir) = []
   \<and> fst (getAllErrors NoFile) = []
   \<and> fst (getAllErrors (File Garbage)) = []
   \<and> fst (getAllErrors (File (Json errors))) = errors
   \<and> (\<not> existsSync_file d \<longrightarrow> fst (getAllErrors d) = [])
   \<and> (readFileSync d = Inr c \<and> JSON_parse c = Inl e \<longrightarrow> fst (getAllErrors d) = [])
   \<and> (readFileSync d = Inr c \<and> JSON_parse c = Inr errors \<longrightarrow> fst (getAllErrors d) = errors)"
proof (intro conjI impI)
  assume "\<not> existsSync_file d"
  then show "fst (getAllErrors d) = []"
    by (cases d rule: disk_cases) (simp_all add: getAllErrors_simps existsSync_file_def)
next
  assume "readFileSync d = Inr c \<and> JSON_parse c = Inl e"
  then show "fst (getAllErrors d) = []"
    by (cases d rule: disk_cases)
       (auto simp: getAllErrors_simps readFileSync_def JSON_parse_def)
next
  assume "readFileSync d = Inr c \<and> JSON_parse c = Inr errors"
  then show "fst (getAllErrors d) = errors"
    by (cases d rule: disk_cases)
       (auto simp: getAllErrors_simps readFileSync_def JSON_parse_def)
qed (simp_all add: getAllErrors_simps)

theorem getAllErrors_swallows_failures_witness:
  "\<not> existsSync_file NoFile
   \<and> fst (getAllErrors NoFile) = []
   \<and> readFileSync (File Garbage) = Inr Garbage \<and> JSON_parse Garbage = Inl SyntaxError
   \<and> fst (getAllErrors (File Garbage)) = []
   \<and> readFileSync (File (Json [example_record ''1000'' 1000]))
        = Inr (Json [example_record ''1000'' 1000])
   \<and> JSON_parse (Json [example_record ''1000'' 1000]) = Inr [example_record ''1000'' 1000]
   \<and> fst (getAllErrors (File (Json [example_record ''1000'' 1000])))
        = [example_record ''1000'' 1000]"
proof -
  have h1: "\<not> existsSync_file NoFile" by (simp add: existsSync_file_def)
  have h2: "readFileSync (File Garbage) = Inr Garbage \<and> JSON_parse Garbage = Inl SyntaxError"
    by (simp add: readFileSync_def JSON_parse_def)
  have h3: "readFileSync (File (Json [example_record ''1000'' 1000]))
        = Inr (Json [example_record ''1000'' 1000])
   \<and> JSON_parse (Json [example_record ''1000'' 1000]) = Inr [example_record ''1000'' 1000]"
    by (simp add: readFileSync_def JSON_parse_def)
  from getAllErrors_swallows_failures[of "[example_record ''1000'' 1000]" NoFile] h1
  have a: "fst (getAllErrors NoFile) = []" by blast
  from getAllErrors_swallows_failures[of "[]" "File Garbage" Garbage SyntaxError] h2
  have b: "fst (getAllErrors (File Garbage)) = []" by blast
  from getAllErrors_swallows_failures[of "[example_record ''1000'' 1000]"]
  have c: "fst (getAllErrors (File (Json [example_record ''1000'' 1000])))
        = [example_record ''1000'' 1000]" by blast
  from h1 h2 h3 a b c show ?thesis by blast
qed

section \<open>Deleting\<close>

lemma length_filter_eq_iff:
  "(length (filter P xs) = length xs) = (\<forall>x\<in>set xs. P x)"
proof (induction xs)
  case Nil
  then show ?case by simp
next
  case (Cons x xs)
  have "length (filter P xs) \<le> length xs" by (rule length_filter_le)
  then have "length (filter P xs) \<noteq> Suc (length xs)" by arith
  with Cons show ?case by auto
qed

lemma deleteError_eq:
  "deleteError i d =
     (if i \<in> id' ` set (stored d)
      then (True, File (Json (filter (\<lambda>e. id' e \<noteq> i) (stored d))))
      else (False, snd (getAllErrors d)))"
proof -
  have len: "(length (filter (\<lambda>e. id' e \<noteq> i) xs) = length xs) = (i \<notin> id' ` set xs)"
    for xs :: "ErrorRecord list"
    by (simp add: length_filter_eq_iff image_iff) blast
  show ?thesis
    by (cases d rule: disk_cases)
       (auto simp add: deleteError_def ensureDbFile_eq getAllErrors_simps stored_simps
          writeFileSync_def len Let_def)
qed

lemma filter_distinct_remove1:
  "distinct (map f xs) \<Longrightarrow> r \<in> set xs \<Longrightarrow> filter (\<lambda>e. f e \<noteq> f r) xs = remove1 r xs"
proof (induction xs)
  case Nil
  then show ?case by simp
next
  case (Cons x xs)
  show ?case
  proof (cases "x = r")
    case True
    with Cons.prems have "f r \<notin> f ` set xs" by simp
    then have "\<forall>e\<in>set xs. f e \<noteq> f r" by (metis imageI)
    then have "filter (\<lambda>e. f e \<noteq> f r) xs = xs" by (simp add: filter_id_conv)
    with True show ?thesis by simp
  next
    case False
    with Cons.prems have "r \<in> set xs" and "f x \<noteq> f r" by auto
    with Cons False show ?thesis by auto
  qed
qed


text \<open>
  C7. Deleting an id that no stored record has answers \<open>False\<close> and leaves the collection
  on the disk as it was (a file that exists is not written at all). Deleting an id that a
  stored record has, in a collection whose ids are distinct, answers \<open>True\<close>, removes that
  one record and nothing else, and a second delete of the same id answers \<open>False\<close>.
\<close>

theorem deleteError_removes_one:
  "(i \<notin> id' ` set (stored d) \<longrightarrow>
      fst (deleteError i d) = False
      \<and> stored (snd (deleteError i d)) = stored d
      \<and> (existsSync_file d \<longrightarrow> snd (deleteError i d) = d))
   \<and> (i \<in> id' ` set (stored d) \<and> distinct (map id' (stored d)) \<longrightarrow>
      fst (deleteError i d) = True
      \<and> (\<exists>r\<in>set (stored d). id' r = i
            \<and> stored (snd (deleteError i d)) = remove1 r (stored d))
      \<and> length (stored (snd (deleteError i d))) + 1 = length (stored d)
      \<and> fst (deleteError i (snd (deleteError i d))) = False)"
proof (intro conjI impI)
  assume a: "i \<notin> id' ` set (stored d)"
  then show "fst (deleteError i d) = False" by (simp add: deleteError_eq)
  from a show "stored (snd (deleteError i d)) = stored d"
    by (simp add: deleteError_eq stored_def getAllErrors_twice)
  assume "existsSync_file d"
  with a show "snd (deleteError i d) = d"
    by (cases d rule: disk_cases)
       (simp_all add: deleteError_eq getAllErrors_simps existsSync_file_def)
next
  assume a: "i \<in> id' ` set (stored d) \<and> distinct (map id' (stored d))"
  then obtain r where r: "r \<in> set (stored d)" "id' r = i" by auto
  from a have del: "deleteError i d = (True, File (Json (filter (\<lambda>e. id' e \<noteq> i) (stored d))))"
    by (simp add: deleteError_eq)
  from a r have f: "filter (\<lambda>e. id' e \<noteq> i) (stored d) = remove1 r (stored d)"
    using filter_distinct_remove1[of id' "stored d" r] by simp
  from del show "fst (deleteError i d) = True" by simp
  from del f r show "\<exists>r\<in>set (stored d). id' r = i
            \<and> stored (snd (deleteError i d)) = remove1 r (stored d)"
    by (auto simp: stored_simps)
  from del f r show "length (stored (snd (deleteError i d))) + 1 = length (stored d)"
    by (simp add: stored_simps length_remove1) (metis Suc_pred length_pos_if_in_set)
  have "i \<notin> id' ` set (filter (\<lambda>e. id' e \<noteq> i) (stored d))" by auto
  with del show "fst (deleteError i (snd (deleteError i d))) = False"
    by (simp add: deleteError_eq[of i "File _"] stored_simps)
qed

theorem deleteError_removes_one_witness:
  "''7'' \<notin> id' ` set (stored (File (Json [example_record ''1000'' 1000])))
   \<and> existsSync_file (File (Json [example_record ''1000'' 1000]))
   \<and> deleteError ''7'' (File (Json [example_record ''1000'' 1000]))
     = (False, File (Json [example_record ''1000'' 1000]))
   \<and> ''1000'' \<in> id' ` set (stored (File (Json [example_record ''1000'' 1000])))
   \<and> distinct (map id' (stored (File (Json [example_record ''1000'' 1000]))))
   \<and> fst (deleteError ''1000'' (File (Json [example_record ''1000'' 1000]))) = True
   \<and> stored (snd (deleteError ''1000'' (File (Json [example_record ''1000'' 1000])))) = []
   \<and> fst (deleteError ''1000''
        (snd (deleteError ''1000'' (File (Json [example_record ''1000'' 1000]))))) = False"
proof -
  define r where "r = example_record ''1000'' 1000"
  have s: "stored (File (Json [r])) = [r]" by (simp add: stored_simps)
  have i: "id' r = ''1000''" by (simp add: r_def example_record_def)
  have h1: "''7'' \<notin> id' ` set (stored (File (Json [r])))" by (simp add: s i)
  have h2: "existsSync_file (File (Json [r]))" by (simp add: existsSync_file_def)
  have h3: "''1000'' \<in> id' ` set (stored (File (Json [r])))
            \<and> distinct (map id' (stored (File (Json [r]))))"
    by (simp add: s i)
  note t1 = deleteError_removes_one[of "''7''" "File (Json [r])"]
  note t2 = deleteError_removes_one[of "''1000''" "File (Json [r])"]
  from t1 h1 h2 have "fst (deleteError ''7'' (File (Json [r]))) = False
      \<and> snd (deleteError ''7'' (File (Json [r]))) = File (Json [r])"
    by blast
  then have a: "deleteError ''7'' (File (Json [r])) = (False, File (Json [r]))"
    by (simp add: prod_eq_iff)
  from t2 h3 have b: "fst (deleteError ''1000'' (File (Json [r]))) = True" by blast
  from t2 h3 have "length (stored (snd (deleteError ''1000'' (File (Json [r]))))) + 1
      = length (stored (File (Json [r])))" by blast
  then have c: "stored (snd (deleteError ''1000'' (File (Json [r])))) = []" by (simp add: s)
  from t2 h3 have e: "fst (deleteError ''1000'' (snd (deleteError ''1000'' (File (Json [r])))))
      = False" by blast
  from h1 h2 h3 a b c e show ?thesis unfolding r_def by blast
qed


section \<open>The most recent records\<close>

lemma mset_insert': "mset (insert' cmp x xs) = add_mset x (mset xs)"
  by (induction xs) auto

lemma set_insert': "set (insert' cmp x xs) = insert x (set xs)"
  by (induction xs) auto

lemma mset_sort': "mset (sort' cmp xs) = mset xs"
  by (induction xs) (simp_all add: sort'_def mset_insert')

lemma length_sort': "length (sort' cmp xs) = length xs"
  by (metis mset_sort' size_mset)

lemma sorted_insert'_timestamp:
  "sorted_wrt (\<lambda>a b. timestamp b \<le> timestamp a) xs \<Longrightarrow>
   sorted_wrt (\<lambda>a b. timestamp b \<le> timestamp a)
     (insert' (\<lambda>a b. timestamp b - timestamp a) x xs)"
  by (induction xs) (auto simp: set_insert')

lemma sorted_sort'_timestamp:
  "sorted_wrt (\<lambda>a b. timestamp b \<le> timestamp a)
     (sort' (\<lambda>a b. timestamp b - timestamp a) xs)"
proof (induction xs)
  case Nil
  then show ?case by (simp add: sort'_def)
next
  case (Cons x xs)
  then show ?case
    using sorted_insert'_timestamp[of "sort' (\<lambda>a b. timestamp b - timestamp a) xs" x]
    by (simp add: sort'_def)
qed

lemma sorted_wrt_take: "sorted_wrt R xs \<Longrightarrow> sorted_wrt R (take n xs)"
  by (metis append_take_drop_id sorted_wrt_append)

lemma getRecentErrors_eq:
  "getRecentErrors arg d =
     (slice0 (sort' (\<lambda>a b. timestamp b - timestamp a) (stored d))
        (case arg of None \<Rightarrow> Num 10 | Some n \<Rightarrow> n),
      snd (getAllErrors d))"
  by (simp add: getRecentErrors_def stored_def Let_def split_beta)

text \<open>
  C6. For a limit \<open>n\<close> that is a natural number, \<^verbatim>\<open>getRecentErrors\<close> answers
  \<open>min n size\<close> records, where \<open>size\<close> is the size of the stored collection; they are in
  descending order of timestamp, and they are the first \<open>n\<close> of a descending rearrangement
  of the whole collection. Without an argument the limit is 10.
\<close>

theorem getRecentErrors_min_sorted:
  "length (fst (getRecentErrors (Some (Num (int n))) d)) = min n (length (stored d))
   \<and> sorted_wrt (\<lambda>a b. timestamp b \<le> timestamp a) (fst (getRecentErrors (Some (Num (int n))) d))
   \<and> (\<exists>ys. mset ys = mset (stored d)
          \<and> sorted_wrt (\<lambda>a b. timestamp b \<le> timestamp a) ys
          \<and> fst (getRecentErrors (Some (Num (int n))) d) = take n ys)
   \<and> getRecentErrors None d = getRecentErrors (Some (Num 10)) d"
proof -
  let ?ys = "sort' (\<lambda>a b. timestamp b - timestamp a) (stored d)"
  have r: "fst (getRecentErrors (Some (Num (int n))) d) = take n ?ys"
    by (simp add: getRecentErrors_eq slice0_def)
  have s: "sorted_wrt (\<lambda>a b. timestamp b \<le> timestamp a) ?ys"
    by (rule sorted_sort'_timestamp)
  have m: "mset ?ys = mset (stored d)" by (rule mset_sort')
  have "length (take n ?ys) = min n (length (stored d))"
    by (simp add: length_sort' min.commute)
  moreover have "sorted_wrt (\<lambda>a b. timestamp b \<le> timestamp a) (take n ?ys)"
    using s by (rule sorted_wrt_take)
  moreover have "getRecentErrors None d = getRecentErrors (Some (Num 10)) d"
    by (simp add: getRecentErrors_eq)
  ultimately show ?thesis using r s m by auto
qed

theorem getRecentErrors_min_sorted_witness:
  "length (fst (getRecentErrors (Some (Num (int 2)))
      (File (Json [example_record ''1'' 1, example_record ''3'' 3, example_record ''2'' 2]))))
     = 2
   \<and> map timestamp (fst (getRecentErrors (Some (Num 2))
      (File (Json [example_record ''1'' 1, example_record ''3'' 3, example_record ''2'' 2]))))
     = [3, 2]
   \<and> length (fst (getRecentErrors (Some (Num (int 5)))
      (File (Json [example_record ''1'' 1, example_record ''3'' 3, example_record ''2'' 2]))))
     = 3"
proof -
  let ?d = "File (Json [example_record ''1'' 1, example_record ''3'' 3, example_record ''2'' 2])"
  have l: "length (stored ?d) = 3" by (simp add: stored_simps)
  from getRecentErrors_min_sorted[of 2 ?d] l
  have a: "length (fst (getRecentErrors (Some (Num (int 2))) ?d)) = 2" by simp
  from getRecentErrors_min_sorted[of 5 ?d] l
  have b: "length (fst (getRecentErrors (Some (Num (int 5))) ?d)) = 3" by simp
  have c: "map timestamp (fst (getRecentErrors (Some (Num 2)) ?d)) = [3, 2]"
    by (simp add: getRecentErrors_eq stored_simps slice0_def sort'_def example_record_def)
  from a b c show ?thesis by blast
qed


section \<open>Creating\<close>

lemma saveError_eq:
  "saveError now1 now2 e d =
     (let newError = \<lparr> errorMessage = errorMessage e, errorType = errorType e,
                       stackTrace = stackTrace e, context' = context' e,
                       analysis = analysis e, id' = toString now1, timestamp = now2 \<rparr>
      in (newError, File (Json (stored d @ [newError]))))"
  by (simp add: saveError_def stored_def ensureDbFile_getAllErrors writeFileSync_def
      Let_def split_beta)

lemma saveError_fst:
  "id' (fst (saveError now1 now2 e d)) = toString now1"
  "timestamp (fst (saveError now1 now2 e d)) = now2"
  by (simp_all add: saveError_eq Let_def)

lemma saveError_stored:
  "stored (snd (saveError now1 now2 e d)) = stored d @ [fst (saveError now1 now2 e d)]"
  by (simp add: saveError_eq Let_def stored_simps)

text \<open>
  C1 (as amended). The record a create returns has the decimal string of the first clock
  value as its id and the second clock value as its timestamp, so the timestamp lies in
  every window that holds the clock values of the call; the record is appended to the
  stored collection. Two creates whose id clock values differ return records with
  distinct ids. A create keeps the ids of the collection distinct whenever the decimal
  string of its clock value is not yet the id of a stored record.
\<close>

theorem saveError_id_timestamp:
  "id' (fst (saveError now1 now2 e d)) = toString now1
   \<and> timestamp (fst (saveError now1 now2 e d)) = now2
   \<and> (lo \<le> now1 \<and> now1 \<le> now2 \<and> now2 \<le> hi \<longrightarrow>
        lo \<le> timestamp (fst (saveError now1 now2 e d))
        \<and> timestamp (fst (saveError now1 now2 e d)) \<le> hi)
   \<and> stored (snd (saveError now1 now2 e d)) = stored d @ [fst (saveError now1 now2 e d)]
   \<and> (now1 \<noteq> now1' \<longrightarrow>
        id' (fst (saveError now1 now2 e d)) \<noteq> id' (fst (saveError now1' now2' e' d')))
   \<and> (distinct (map id' (stored d)) \<and> toString now1 \<notin> id' ` set (stored d) \<longrightarrow>
        distinct (map id' (stored (snd (saveError now1 now2 e d)))))"
proof (intro conjI impI)
  assume "now1 \<noteq> now1'"
  then have "toString now1 \<noteq> toString now1'" by (metis toString_inj)
  then show "id' (fst (saveError now1 now2 e d)) \<noteq> id' (fst (saveError now1' now2' e' d'))"
    by (simp add: saveError_fst)
next
  assume "distinct (map id' (stored d)) \<and> toString now1 \<notin> id' ` set (stored d)"
  then show "distinct (map id' (stored (snd (saveError now1 now2 e d))))"
    by (simp add: saveError_stored saveError_fst)
qed (simp_all add: saveError_fst saveError_stored)

theorem saveError_id_timestamp_witness:
  "(1000::int) \<le> 1001 \<and> (1001::int) \<le> 1002 \<and> (1002::int) \<le> 1003
   \<and> (1001::int) \<noteq> 1005
   \<and> id' (fst (saveError 1001 1002 example_input NoDir)) = ''1001''
   \<and> timestamp (fst (saveError 1001 1002 example_input NoDir)) = 1002
   \<and> id' (fst (saveError 1001 1002 example_input NoDir))
       \<noteq> id' (fst (saveError 1005 1005 example_input
                     (snd (saveError 1001 1002 example_input NoDir))))
   \<and> distinct (map id' (stored NoDir))
   \<and> toString 1001 \<notin> id' ` set (stored NoDir)
   \<and> distinct (map id' (stored (snd (saveError 1001 1002 example_input NoDir))))"
proof -
  note t = saveError_id_timestamp[of 1001 1002 example_input NoDir 1000 1003 1005 1005
      example_input "snd (saveError 1001 1002 example_input NoDir)"]
  have s: "toString 1001 = ''1001''" by (simp add: toString_def digits.simps digit_def)
  have h: "distinct (map id' (stored NoDir)) \<and> toString 1001 \<notin> id' ` set (stored NoDir)"
    by (simp add: stored_simps)
  have n: "(1001::int) \<noteq> 1005" by simp
  from t have "id' (fst (saveError 1001 1002 example_input NoDir)) = toString 1001" by blast
  with s have a: "id' (fst (saveError 1001 1002 example_input NoDir)) = ''1001''" by simp
  from t have b: "timestamp (fst (saveError 1001 1002 example_input NoDir)) = 1002" by blast
  from t n have c: "id' (fst (saveError 1001 1002 example_input NoDir))
       \<noteq> id' (fst (saveError 1005 1005 example_input
                     (snd (saveError 1001 1002 example_input NoDir))))" by blast
  from t h have e: "distinct (map id' (stored (snd (saveError 1001 1002 example_input NoDir))))"
    by blast
  from a b c h e show ?thesis by simp
qed

text \<open>
  The claim as it stands fails: two creates that read the same clock value, 1000, return
  records with the same id, and the collection then holds that id twice.
\<close>

theorem saveError_same_clock_counterexample:
  "id' (fst (saveError 1000 1000 example_input NoDir))
     = id' (fst (saveError 1000 1001 example_input
                  (snd (saveError 1000 1000 example_input NoDir))))
   \<and> distinct (map id' (stored (snd (saveError 1000 1000 example_input NoDir))))
   \<and> \<not> distinct (map id' (stored (snd (saveError 1000 1001 example_input
                  (snd (saveError 1000 1000 example_input NoDir))))))"
  by (simp add: saveError_eq Let_def stored_simps)

section \<open>Updating\<close>

lemma findIndex_none: "(findIndex P xs = - 1) = (\<forall>x\<in>set xs. \<not> P x)"
proof (induction xs)
  case Nil
  then show ?case by simp
next
  case (Cons x xs)
  have "0 \<le> findIndex P xs \<or> findIndex P xs = - 1"
    by (induction xs) (auto simp: Let_def)
  with Cons show ?case by (auto simp: Let_def)
qed

lemma findIndex_found:
  "findIndex P xs \<noteq> - 1 \<Longrightarrow>
   0 \<le> findIndex P xs \<and> nat (findIndex P xs) < length xs \<and> P (xs ! nat (findIndex P xs))"
proof (induction xs)
  case Nil
  then show ?case by simp
next
  case (Cons x xs)
  show ?case
  proof (cases "P x")
    case True
    then show ?thesis by simp
  next
    case False
    with Cons.prems have n: "findIndex P xs \<noteq> - 1" by (auto simp: Let_def)
    from Cons.IH[OF n] have ih: "0 \<le> findIndex P xs" "nat (findIndex P xs) < length xs"
      "P (xs ! nat (findIndex P xs))" by simp_all
    from False n have e: "findIndex P (x # xs) = findIndex P xs + 1" by (simp add: Let_def)
    from ih have "nat (findIndex P xs + 1) = Suc (nat (findIndex P xs))" by simp
    with ih e show ?thesis by simp
  qed
qed

lemma updateError_eq:
  "updateError i updates d =
     (let index = findIndex (\<lambda>e. id' e = i) (stored d)
      in if index = - 1 then (None, snd (getAllErrors d))
         else (Some (spread (stored d ! nat index) updates),
               File (Json ((stored d)[nat index := spread (stored d ! nat index) updates]))))"
proof -
  have "findIndex (\<lambda>e. id' e = i) (stored d) \<noteq> - 1 \<Longrightarrow>
        nat (findIndex (\<lambda>e. id' e = i) (stored d)) < length (stored d)"
    using findIndex_found[of "\<lambda>e. id' e = i" "stored d"] by simp
  then show ?thesis
    by (simp add: updateError_def stored_def ensureDbFile_getAllErrors writeFileSync_def
        Let_def split_beta getAllErrors_twice)
qed

lemma spread_keeps:
  "upd_id updates = None \<Longrightarrow> id' (spread e updates) = id' e"
  "upd_timestamp updates = None \<Longrightarrow> timestamp (spread e updates) = timestamp e"
  by (simp_all add: spread_def)

lemma map_update_same: "f v = f (xs ! k) \<Longrightarrow> map f (xs[k := v]) = map f xs"
  by (induction xs arbitrary: k) (auto split: nat.splits)

lemma updateError_keeps:
  assumes "upd_id updates = None" and "upd_timestamp updates = None"
  shows "map id' (stored (snd (updateError i updates d))) = map id' (stored d)"
    and "map timestamp (stored (snd (updateError i updates d))) = map timestamp (stored d)"
proof -
  let ?k = "nat (findIndex (\<lambda>e. id' e = i) (stored d))"
  have a: "map id' ((stored d)[?k := spread (stored d ! ?k) updates]) = map id' (stored d)"
    using assms by (simp add: map_update_same spread_keeps)
  have b: "map timestamp ((stored d)[?k := spread (stored d ! ?k) updates])
      = map timestamp (stored d)"
    using assms by (simp add: map_update_same spread_keeps)
  have n: "stored (snd (getAllErrors d)) = stored d"
    by (simp add: stored_def getAllErrors_twice)
  from a n show "map id' (stored (snd (updateError i updates d))) = map id' (stored d)"
    by (simp add: updateError_eq Let_def stored_simps)
  from b n show "map timestamp (stored (snd (updateError i updates d)))
      = map timestamp (stored d)"
    by (simp add: updateError_eq Let_def stored_simps)
qed

lemma updateErrors_keep:
  "\<forall>c\<in>set calls. upd_id (snd c) = None \<and> upd_timestamp (snd c) = None \<Longrightarrow>
   map id' (stored (updateErrors calls d)) = map id' (stored d)
   \<and> map timestamp (stored (updateErrors calls d)) = map timestamp (stored d)"
proof (induction calls arbitrary: d)
  case Nil
  then show ?case by simp
next
  case (Cons c calls)
  obtain i updates where c: "c = (i, updates)" by (cases c)
  with Cons.prems have u: "upd_id updates = None" "upd_timestamp updates = None" by simp_all
  from Cons.prems have "\<forall>c\<in>set calls. upd_id (snd c) = None \<and> upd_timestamp (snd c) = None"
    by simp
  from Cons.IH[OF this, of "snd (updateError i updates d)"] c
  show ?case by (simp add: updateError_keeps[OF u])
qed

text \<open>
  C2 (as amended). An update whose fields carry neither an id nor a timestamp returns, when
  it finds the record, a record with the id asked for and the timestamp that record had.
  After any sequence of such updates the ids and the timestamps of the stored records are,
  position by position, what they were before.
\<close>

theorem updateError_keeps_id_timestamp:
  "(upd_id updates = None \<and> upd_timestamp updates = None
      \<and> fst (updateError i updates d) = Some r \<longrightarrow>
        id' r = i \<and> (\<exists>old\<in>set (stored d). id' old = i \<and> timestamp r = timestamp old))
   \<and> ((\<forall>c\<in>set calls. upd_id (snd c) = None \<and> upd_timestamp (snd c) = None) \<longrightarrow>
        map id' (stored (updateErrors calls d)) = map id' (stored d)
        \<and> map timestamp (stored (updateErrors calls d)) = map timestamp (stored d))"
proof (intro conjI impI)
  assume a: "upd_id updates = None \<and> upd_timestamp updates = None
      \<and> fst (updateError i updates d) = Some r"
  let ?k = "nat (findIndex (\<lambda>e. id' e = i) (stored d))"
  from a have f: "findIndex (\<lambda>e. id' e = i) (stored d) \<noteq> - 1"
    by (auto simp: updateError_eq Let_def split: if_splits)
  with a have r: "r = spread (stored d ! ?k) updates"
    by (auto simp: updateError_eq Let_def)
  from findIndex_found[OF f] have k: "?k < length (stored d)" "id' (stored d ! ?k) = i"
    by simp_all
  from r a k show "id' r = i" by (simp add: spread_keeps)
  from r a have "timestamp r = timestamp (stored d ! ?k)" by (simp add: spread_keeps)
  with k show "\<exists>old\<in>set (stored d). id' old = i \<and> timestamp r = timestamp old"
    by (metis nth_mem)
next
  assume "\<forall>c\<in>set calls. upd_id (snd c) = None \<and> upd_timestamp (snd c) = None"
  then show "map id' (stored (updateErrors calls d)) = map id' (stored d)"
    and "map timestamp (stored (updateErrors calls d)) = map timestamp (stored d)"
    using updateErrors_keep[of calls d] by simp_all
qed

theorem updateError_keeps_id_timestamp_witness:
  "upd_id \<lparr> upd_id = None, upd_timestamp = None, upd_errorMessage = Some ''changed'',
       upd_errorType = None, upd_stackTrace = None, upd_context = None,
       upd_analysis = None \<rparr> = None
   \<and> upd_timestamp \<lparr> upd_id = None, upd_timestamp = None, upd_errorMessage = Some ''changed'',
       upd_errorType = None, upd_stackTrace = None, upd_context = None,
       upd_analysis = None \<rparr> = None
   \<and> fst (updateError ''1000''
        \<lparr> upd_id = None, upd_timestamp = None, upd_errorMessage = Some ''changed'',
          upd_errorType = None, upd_stackTrace = None, upd_context = None,
          upd_analysis = None \<rparr>
        (File (Json [example_record ''1000'' 1000])))
       = Some ((example_record ''1000'' 1000)\<lparr>errorMessage := ''changed''\<rparr>)
   \<and> id' ((example_record ''1000'' 1000)\<lparr>errorMessage := ''changed''\<rparr>) = ''1000''
   \<and> map id' (stored (updateErrors
        [(''1000'', \<lparr> upd_id = None, upd_timestamp = None, upd_errorMessage = Some ''changed'',
          upd_errorType = None, upd_stackTrace = None, upd_context = None,
          upd_analysis = None \<rparr>)]
        (File (Json [example_record ''1000'' 1000])))) = [''1000'']
   \<and> map timestamp (stored (updateErrors
        [(''1000'', \<lparr> upd_id = None, upd_timestamp = None, upd_errorMessage = Some ''changed'',
          upd_errorType = None, upd_stackTrace = None, upd_context = None,
          upd_analysis = None \<rparr>)]
        (File (Json [example_record ''1000'' 1000])))) = [1000]"
proof -
  define u where "u = \<lparr> upd_id = None, upd_timestamp = None,
       upd_errorMessage = Some ''changed'', upd_errorType = None, upd_stackTrace = None,
       upd_context = None, upd_analysis = None \<rparr>"
  define d where "d = File (Json [example_record ''1000'' 1000])"
  define r where "r = (example_record ''1000'' 1000)\<lparr>errorMessage := ''changed''\<rparr>"
  have h: "upd_id u = None \<and> upd_timestamp u = None" by (simp add: u_def)
  have f: "fst (updateError ''1000'' u d) = Some r"
    by (simp add: updateError_eq stored_simps d_def u_def r_def example_record_def spread_def
        Let_def)
  have s: "map id' (stored d) = [''1000''] \<and> map timestamp (stored d) = [1000]"
    by (simp add: stored_simps d_def example_record_def)
  have c: "\<forall>c\<in>set [(''1000'', u)]. upd_id (snd c) = None \<and> upd_timestamp (snd c) = None"
    by (simp add: u_def)
  note t = updateError_keeps_id_timestamp[of u "''1000''" d r "[(''1000'', u)]"]
  from t h f have a: "id' r = ''1000''" by blast
  from t c have "map id' (stored (updateErrors [(''1000'', u)] d)) = map id' (stored d)
      \<and> map timestamp (stored (updateErrors [(''1000'', u)] d)) = map timestamp (stored d)"
    by blast
  with s have b: "map id' (stored (updateErrors [(''1000'', u)] d)) = [''1000'']
      \<and> map timestamp (stored (updateErrors [(''1000'', u)] d)) = [1000]"
    by simp
  from h f a b show ?thesis unfolding u_def d_def r_def by blast
qed

text \<open>
  The claim as it stands fails: an update that carries an id and a timestamp replaces
  both in the stored record.
\<close>

theorem updateError_overwrites_id_counterexample:
  "map id' (stored (File (Json [example_record ''1000'' 1000]))) = [''1000'']
   \<and> map timestamp (stored (File (Json [example_record ''1000'' 1000]))) = [1000]
   \<and> map id' (stored (snd (updateError ''1000''
        \<lparr> upd_id = Some ''2'', upd_timestamp = Some 5, upd_errorMessage = None,
          upd_errorType = None, upd_stackTrace = None, upd_context = None,
          upd_analysis = None \<rparr>
        (File (Json [example_record ''1000'' 1000]))))) = [''2'']
   \<and> map timestamp (stored (snd (updateError ''1000''
        \<lparr> upd_id = Some ''2'', upd_timestamp = Some 5, upd_errorMessage = None,
          upd_errorType = None, upd_stackTrace = None, upd_context = None,
          upd_analysis = None \<rparr>
        (File (Json [example_record ''1000'' 1000]))))) = [5]"
  by (simp add: updateError_eq stored_simps example_record_def spread_def Let_def)

section \<open>The analysis gateway never raises\<close>

lemma analyzeError_try_failure:
  "(\<forall>data. outcome \<noteq> Ok (JsonObject data)) \<Longrightarrow> \<exists>e. analyzeError_try outcome = Inl e"
  by (auto simp: analyzeError_try_def split: fetch_outcome.splits json.splits option.splits)

lemma analyzeError_returns:
  "\<exists>r. fst (analyzeError outcome eMessage eType eStack eContext reqs) = Inr r"
  by (simp add: analyzeError_def Let_def split: sum.splits)

text \<open>
  C4. \<^verbatim>\<open>analyzeError\<close> returns a result for every outcome of the external call. When
  the call fails (the fetch rejects on a network error or on the timeout, the status is
  not 2xx, or the body of a 2xx response does not parse or is \<^verbatim>\<open>null\<close>), the result is
  the fallback classifier's for the same input; its confidence score is 0.5 and its root
  cause is the error type, a colon and a space, and the error message.
\<close>

theorem analyzeError_falls_back:
  "(\<exists>r. fst (analyzeError outcome eMessage eType eStack eContext reqs) = Inr r)
   \<and> ((\<forall>data. outcome \<noteq> Ok (JsonObject data)) \<longrightarrow>
        fst (analyzeError outcome eMessage eType eStack eContext reqs)
          = Inr (fallbackAnalyzer eMessage eType eStack eContext))
   \<and> confidenceScore (fallbackAnalyzer eMessage eType eStack eContext) = Some 0.5
   \<and> rootCause (fallbackAnalyzer eMessage eType eStack eContext) = eType @ '': '' @ eMessage"
proof (intro conjI impI)
  show "\<exists>r. fst (analyzeError outcome eMessage eType eStack eContext reqs) = Inr r"
    by (rule analyzeError_returns)
next
  assume "\<forall>data. outcome \<noteq> Ok (JsonObject data)"
  then obtain e where "analyzeError_try outcome = Inl e"
    using analyzeError_try_failure by blast
  then show "fst (analyzeError outcome eMessage eType eStack eContext reqs)
          = Inr (fallbackAnalyzer eMessage eType eStack eContext)"
    by (simp add: analyzeError_def Let_def)
qed (simp_all add: fallbackAnalyzer_def Let_def)

theorem analyzeError_falls_back_witness:
  "fst (analyzeError (Rejected TimeoutError) ''Cannot read property map of undefined''
          ''TypeError'' [] [] [])
     = Inr (fallbackAnalyzer ''Cannot read property map of undefined'' ''TypeError'' [] [])
   \<and> fst (analyzeError (Rejected TypeError) ''Cannot read property map of undefined''
          ''TypeError'' [] [] [])
     = Inr (fallbackAnalyzer ''Cannot read property map of undefined'' ''TypeError'' [] [])
   \<and> fst (analyzeError (NotOk 500 (JsonObject (Some ''Internal Server Error'')))
          ''Cannot read property map of undefined'' ''TypeError'' [] [] [])
     = Inr (fallbackAnalyzer ''Cannot read property map of undefined'' ''TypeError'' [] [])
   \<and> fst (analyzeError (Ok NotJson) ''Cannot read property map of undefined''
          ''TypeError'' [] [] [])
     = Inr (fallbackAnalyzer ''Cannot read property map of undefined'' ''TypeError'' [] [])
   \<and> confidenceScore (fallbackAnalyzer ''Cannot read property map of undefined''
          ''TypeError'' [] []) = Some 0.5
   \<and> rootCause (fallbackAnalyzer ''Cannot read property map of undefined'' ''TypeError'' [] [])
     = ''TypeError: Cannot read property map of undefined''"
proof -
  let ?m = "''Cannot read property map of undefined''"
  have h1: "\<forall>data. Rejected TimeoutError \<noteq> Ok (JsonObject data)" by simp
  have h2: "\<forall>data. Rejected TypeError \<noteq> Ok (JsonObject data)" by simp
  have h3: "\<forall>data. NotOk 500 (JsonObject (Some ''Internal Server Error'')) \<noteq> Ok (JsonObject data)"
    by simp
  have h4: "\<forall>data. Ok NotJson \<noteq> Ok (JsonObject data)" by simp
  from analyzeError_falls_back[of "Rejected TimeoutError" ?m "''TypeError''" "[]" "[]" "[]"] h1
  have a: "fst (analyzeError (Rejected TimeoutError) ?m ''TypeError'' [] [] [])
     = Inr (fallbackAnalyzer ?m ''TypeError'' [] [])" by blast
  from analyzeError_falls_back[of "Rejected TypeError" ?m "''TypeError''" "[]" "[]" "[]"] h2
  have b: "fst (analyzeError (Rejected TypeError) ?m ''TypeError'' [] [] [])
     = Inr (fallbackAnalyzer ?m ''TypeError'' [] [])" by blast
  from analyzeError_falls_back[of "NotOk 500 (JsonObject (Some ''Internal Server Error''))"
      ?m "''TypeError''" "[]" "[]" "[]"] h3
  have c: "fst (analyzeError (NotOk 500 (JsonObject (Some ''Internal Server Error'')))
      ?m ''TypeError'' [] [] []) = Inr (fallbackAnalyzer ?m ''TypeError'' [] [])" by blast
  from analyzeError_falls_back[of "Ok NotJson" ?m "''TypeError''" "[]" "[]" "[]"] h4
  have d: "fst (analyzeError (Ok NotJson) ?m ''TypeError'' [] [] [])
     = Inr (fallbackAnalyzer ?m ''TypeError'' [] [])" by blast
  from analyzeError_falls_back[of "Ok NotJson" ?m "''TypeError''" "[]" "[]" "[]"]
  have e: "confidenceScore (fallbackAnalyzer ?m ''TypeError'' [] []) = Some 0.5
      \<and> rootCause (fallbackAnalyzer ?m ''TypeError'' [] [])
          = ''TypeError: Cannot read property map of undefined''"
    by simp
  from a b c d e show ?thesis by blast
qed


section \<open>The create and list handlers\<close>





lemma parseInt_zero: "parseInt ''0'' = Num 0"
  by code_simp

text \<open>
  C10 (as amended). When the \<^verbatim>\<open>limit\<close> parameter of a list request is present and not
  empty, and is the string "0" or does not parse to an integer, the response is the empty
  array. An empty \<^verbatim>\<open>limit\<close> is falsy and is treated as an absent one: the response is
  the whole collection.
\<close>

theorem GET_unusable_limit_gives_empty:
  "(limit \<noteq> [] \<and> (limit = ''0'' \<or> parseInt limit = NaN) \<longrightarrow>
      fst (GET (Some limit) d) = Respond 200 (Records []))
   \<and> fst (GET (Some []) d) = Respond 200 (Records (stored d))
   \<and> fst (GET None d) = Respond 200 (Records (stored d))"
proof (intro conjI impI)
  assume a: "limit \<noteq> [] \<and> (limit = ''0'' \<or> parseInt limit = NaN)"
  then have "parseInt limit = Num 0 \<or> parseInt limit = NaN"
    using parseInt_zero by auto
  then have "slice0 (sort' (\<lambda>a b. timestamp b - timestamp a) (stored d)) (parseInt limit) = []"
    by (auto simp: slice0_def)
  with a show "fst (GET (Some limit) d) = Respond 200 (Records [])"
    by (simp add: GET_def falsy_def or_empty_def getRecentErrors_eq split_beta)
qed (simp_all add: GET_def falsy_def stored_def split_beta)

theorem GET_unusable_limit_gives_empty_witness:
  "''0'' \<noteq> []
   \<and> fst (GET (Some ''0'') (File (Json [example_record ''1000'' 1000])))
       = Respond 200 (Records [])
   \<and> ''abc'' \<noteq> [] \<and> parseInt ''abc'' = NaN
   \<and> fst (GET (Some ''abc'') (File (Json [example_record ''1000'' 1000])))
       = Respond 200 (Records [])"
proof -
  let ?d = "File (Json [example_record ''1000'' 1000])"
  have n: "parseInt ''abc'' = NaN" by code_simp
  from GET_unusable_limit_gives_empty[of "''0''" ?d]
  have a: "fst (GET (Some ''0'') ?d) = Respond 200 (Records [])" by simp
  from GET_unusable_limit_gives_empty[of "''abc''" ?d] n
  have b: "fst (GET (Some ''abc'') ?d) = Respond 200 (Records [])" by simp
  from n a b show ?thesis by simp
qed

text \<open>
  The claim as it stands fails: an empty \<^verbatim>\<open>limit\<close> is present and does not parse to an
  integer, and the response is the whole collection.
\<close>

theorem GET_empty_limit_counterexample:
  "parseInt [] = NaN
   \<and> fst (GET (Some []) (File (Json [example_record ''1000'' 1000])))
       = Respond 200 (Records [example_record ''1000'' 1000])
   \<and> fst (GET (Some []) (File (Json [example_record ''1000'' 1000])))
       \<noteq> Respond 200 (Records [])"
proof -
  have "parseInt [] = NaN" by code_simp
  then show ?thesis
    by (simp add: GET_def falsy_def getAllErrors_simps split_beta)
qed


end
